theory Spec2Isabelle
  imports Complex_Main "HOL-Library.Sublist" "HOL-Library.Monad_Syntax"
begin

section \<open>Text sanitisation\<close>

text \<open>
  \<^verbatim>\<open>sanitizeJSON\<close> (handler.ts, lines 19-24 and again 119-124) chains
  \<^verbatim>\<open>.replace(/```json/g, "")\<close>, \<^verbatim>\<open>.replace(/```/g, "")\<close> and \<^verbatim>\<open>.trim()\<close>.
  Both regular expressions are literal texts with the global flag, so each call scans the
  subject from left to right, deletes a match where one starts and goes on behind it, and
  copies one character where none starts.  A text is a \<open>string\<close>: the list of its code
  units, those below 256.
\<close>

function remove_all :: "string \<Rightarrow> string \<Rightarrow> string" where
  "remove_all pat s =
     (if s = [] \<or> pat = [] then s
      else if prefix pat s then remove_all pat (drop (length pat) s)
      else hd s # remove_all pat (tl s))"
  by pat_completeness auto
termination
  by (relation "measure (\<lambda>(pat, s). length s)") auto

declare remove_all.simps [simp del]

text \<open>
  \<^verbatim>\<open>String.prototype.trim\<close> strips white space and line terminators from both ends:
  TAB, LF, VT, FF, CR, SPACE and NO-BREAK SPACE are the ones below 256.
\<close>

definition is_space :: "char \<Rightarrow> bool" where
  "is_space c \<longleftrightarrow> of_char c \<in> {9, 10, 11, 12, 13, 32, 160 :: nat}"

definition trim :: "string \<Rightarrow> string" where
  "trim s = rev (dropWhile is_space (rev (dropWhile is_space s)))"

definition sanitizeJSON :: "string \<Rightarrow> string" where
  "sanitizeJSON response = trim (remove_all ''```'' (remove_all ''```json'' response))"

text \<open>
  A text between code-fence markers: white space \<open>a\<close>, the opening marker with its
  language tag, white space \<open>b\<close>, the text \<open>t\<close>, white space \<open>c\<close>, the closing
  marker, white space \<open>d\<close>.
\<close>

definition fenced :: "string \<Rightarrow> string \<Rightarrow> string \<Rightarrow> string \<Rightarrow> string \<Rightarrow> string \<Rightarrow> string" where
  "fenced a tag b t c d = a @ ''```'' @ tag @ b @ t @ c @ ''```'' @ d"

section \<open>JavaScript values and the runtime\<close>

text \<open>
  What \<^verbatim>\<open>JSON.parse\<close> returns is a null, a boolean, a number (a finite double, so a
  real), a string, an array or an object; reading a property that is not there gives
  \<^verbatim>\<open>undefined\<close>.  An object is the list of its own properties in enumeration
  order, each key once.
\<close>

datatype jsval =
    JUndefined
  | JNull
  | JBool bool
  | JNumber real
  | JString string
  | JArray "jsval list"
  | JObject "(string \<times> jsval) list"

text \<open>
  What a handler can catch is an error object with a class name and a message: an
  \<^verbatim>\<open>Error\<close> (the one part\_000 throws, or the rejection of an external call), the
  \<^verbatim>\<open>SyntaxError\<close> of \<^verbatim>\<open>JSON.parse\<close>, the \<^verbatim>\<open>TypeError\<close> of a property read on
  \<^verbatim>\<open>null\<close> or \<^verbatim>\<open>undefined\<close> or of a call of something that is no function, or an
  error of another class, given by its name, with which an external call rejects.
\<close>

datatype js_error =
    Error string
  | SyntaxError string
  | TypeError string
  | OtherError string string

fun error_name :: "js_error \<Rightarrow> string" where
  "error_name (Error m) = ''Error''"
| "error_name (SyntaxError m) = ''SyntaxError''"
| "error_name (TypeError m) = ''TypeError''"
| "error_name (OtherError n m) = n"

fun error_message :: "js_error \<Rightarrow> string" where
  "error_message (Error m) = m"
| "error_message (SyntaxError m) = m"
| "error_message (TypeError m) = m"
| "error_message (OtherError n m) = m"

text \<open>\<^verbatim>\<open>String(error)\<close>, that is \<^verbatim>\<open>Error.prototype.toString\<close>.\<close>

definition error_toString :: "js_error \<Rightarrow> string" where
  "error_toString e =
     (if error_name e = [] then error_message e
      else if error_message e = [] then error_name e
      else error_name e @ '': '' @ error_message e)"

text \<open>
  The library functions the handlers call and this repository does not define.  A
  \<^verbatim>\<open>Date\<close> is its time value, the milliseconds since the epoch.  \<^verbatim>\<open>JSON.parse\<close>
  returns the parsed value, or the message of the \<^verbatim>\<open>SyntaxError\<close> it throws.  The
  messages of the \<^verbatim>\<open>TypeError\<close>s are the engine's as well: \<open>formatted_TypeError v\<close>
  is the message of the one thrown while the record of handler.ts, lines 91-99, is built
  from \<open>v\<close>, and \<open>entries_TypeError v\<close> that of the one thrown while the record of
  part\_000, lines 62-72, is built from \<open>v\<close>.
\<close>

record runtime =
  JSON_parse :: "string \<Rightarrow> string + jsval"
  formatted_TypeError :: "jsval \<Rightarrow> string"
  entries_TypeError :: "jsval \<Rightarrow> string"
  toUpperCase :: "string \<Rightarrow> string"
  toDateString :: "int \<Rightarrow> string"
  toISOString :: "int \<Rightarrow> string"

text \<open>
  In the functions below \<open>None\<close> is a thrown \<^verbatim>\<open>TypeError\<close>.  \<open>get_prop v k\<close> is the
  read \<^verbatim>\<open>v.k\<close> for the names the handlers read (\<^verbatim>\<open>theme\<close>, \<^verbatim>\<open>words\<close>, \<^verbatim>\<open>clues\<close>,
  \<^verbatim>\<open>word\<close>, \<^verbatim>\<open>clue\<close>), none of which a string, an array, a number or a boolean has or
  inherits.
\<close>

fun get_prop :: "jsval \<Rightarrow> string \<Rightarrow> jsval option" where
  "get_prop JUndefined k = None"
| "get_prop JNull k = None"
| "get_prop (JObject kvs) k = Some (case map_of kvs k of None \<Rightarrow> JUndefined | Some v \<Rightarrow> v)"
| "get_prop v k = Some JUndefined"

text \<open>\<^verbatim>\<open>w.toUpperCase()\<close>: only a string has the method.\<close>

fun upper :: "runtime \<Rightarrow> jsval \<Rightarrow> string option" where
  "upper rt (JString s) = Some (toUpperCase rt s)"
| "upper rt v = None"

text \<open>
  \<^verbatim>\<open>ws.map(f)\<close> and \<^verbatim>\<open>ws.reduce(f, acc)\<close>: only an array has the methods (an object's
  own property of that name holds data, and calling it throws as well).
\<close>

fun elements :: "jsval \<Rightarrow> jsval list option" where
  "elements (JArray vs) = Some vs"
| "elements v = None"

fun array_map :: "('a \<Rightarrow> 'b option) \<Rightarrow> 'a list \<Rightarrow> 'b list option" where
  "array_map f [] = Some []"
| "array_map f (x # xs) = do { y \<leftarrow> f x; ys \<leftarrow> array_map f xs; Some (y # ys) }"

text \<open>The decimal text of an array index, as a property key.\<close>

fun string_of_nat :: "nat \<Rightarrow> string" where
  "string_of_nat n =
     (if n < 10 then [char_of (48 + n)]
      else string_of_nat (n div 10) @ [char_of (48 + n mod 10)])"

declare string_of_nat.simps [simp del]

text \<open>
  \<^verbatim>\<open>Object.entries(v)\<close> throws on \<^verbatim>\<open>null\<close> and \<^verbatim>\<open>undefined\<close>, lists the own properties
  of an object, the indexed elements of an array and the indexed characters of a string,
  and is empty for a number or a boolean.
\<close>

fun Object_entries :: "jsval \<Rightarrow> (string \<times> jsval) list option" where
  "Object_entries JUndefined = None"
| "Object_entries JNull = None"
| "Object_entries (JObject kvs) = Some kvs"
| "Object_entries (JArray vs) = Some (zip (map string_of_nat [0..<length vs]) vs)"
| "Object_entries (JString s) =
     Some (zip (map string_of_nat [0..<length s]) (map (\<lambda>c. JString [c]) s))"
| "Object_entries v = Some []"

text \<open>\<^verbatim>\<open>Object.fromEntries\<close>: a later pair of the same key replaces the earlier value.\<close>

definition Object_fromEntries :: "(string \<times> jsval) list \<Rightarrow> (string \<rightharpoonup> jsval)" where
  "Object_fromEntries kvs = foldl (\<lambda>m (k, v). m(k \<mapsto> v)) Map.empty kvs"

section \<open>The puzzle record\<close>

text \<open>
  \<^verbatim>\<open>CachedResponse\<close> (handler.ts, lines 9-13).  The type annotations are erased at run
  time, so the fields hold whatever the parsed text held: \<open>theme\<close> any value, \<open>words\<close>
  a list of values, \<open>clues\<close> an object, here the map of its keys.
\<close>

record puzzle =
  theme :: jsval
  words :: "jsval list"
  clues :: "string \<rightharpoonup> jsval"

text \<open>
  \<^verbatim>\<open>formattedResponse\<close> (handler.ts, lines 91-99 and 197-203): the words are
  upper-cased one by one, the clue keys are upper-cased and the clues kept.
\<close>

definition formattedResponse :: "runtime \<Rightarrow> jsval \<Rightarrow> puzzle option" where
  "formattedResponse rt parsedResult = do {
     th \<leftarrow> get_prop parsedResult ''theme'';
     ws \<leftarrow> get_prop parsedResult ''words'';
     es \<leftarrow> elements ws;
     us \<leftarrow> array_map (upper rt) es;
     cl \<leftarrow> get_prop parsedResult ''clues'';
     kvs \<leftarrow> Object_entries cl;
     Some \<lparr>theme = th, words = map JString us,
       clues = Object_fromEntries (map (\<lambda>(word, clue). (toUpperCase rt word, clue)) kvs)\<rparr>
   }"

text \<open>
  The record built from a list of \<^verbatim>\<open>{word, clue}\<close> entries (part\_000, lines 62-72;
  handler.ts, lines 281-291): \<^verbatim>\<open>words\<close> maps each entry to its \<^verbatim>\<open>word\<close>, then
  \<^verbatim>\<open>reduce\<close> stores each \<^verbatim>\<open>clue\<close> under the upper-cased \<^verbatim>\<open>word\<close>.  No result of
  \<^verbatim>\<open>toUpperCase\<close> is \<^verbatim>\<open>__proto__\<close>, so every assignment sets an own property.
\<close>

fun reduce_clues :: "runtime \<Rightarrow> jsval list \<Rightarrow> (string \<rightharpoonup> jsval) \<Rightarrow> (string \<rightharpoonup> jsval) option" where
  "reduce_clues rt [] acc = Some acc"
| "reduce_clues rt (entry # es) acc = do {
     w \<leftarrow> get_prop entry ''word'';
     k \<leftarrow> upper rt w;
     c \<leftarrow> get_prop entry ''clue'';
     reduce_clues rt es (acc(k \<mapsto> c))
   }"

definition entriesResponse :: "runtime \<Rightarrow> jsval \<Rightarrow> puzzle option" where
  "entriesResponse rt rawResult = do {
     th \<leftarrow> get_prop rawResult ''theme'';
     ws \<leftarrow> get_prop rawResult ''words'';
     es \<leftarrow> elements ws;
     wl \<leftarrow> array_map (\<lambda>entry. get_prop entry ''word'') es;
     cl \<leftarrow> reduce_clues rt es Map.empty;
     Some \<lparr>theme = th, words = wl, clues = cl\<rparr>
   }"


section \<open>One request\<close>

text \<open>
  What one run of a handler reads from outside: the request method, the clock, and the
  outcome of \<^verbatim>\<open>openai.chat.completions.create\<close>, which rejects with an error or
  resolves with a list of choices, \<^verbatim>\<open>choices[0]?.message?.content\<close> then being a
  string or missing (\<open>None\<close>).
\<close>

record invocation =
  req_method :: string
  now :: int
  completion :: "js_error + string option"

text \<open>The external calls a run makes, in order.\<close>

datatype event =
    ChatCreate
  | BlobList string
  | BlobFetch string
  | BlobPut string puzzle

text \<open>
  The \<^verbatim>\<open>details\<close> of an error body: a text, or the caught error object itself.
\<close>

datatype details = Text string | Thrown js_error

datatype body =
    NoBody
  | PuzzleJson puzzle
  | ValueJson jsval
  | ErrorJson string "details option"

record response =
  status :: nat
  body :: body

record result =
  reply :: response
  calls :: "event list"

text \<open>
  The \<^verbatim>\<open>catch\<close> blocks.  handler.ts, lines 106-109, and part\_000, lines 76-79, answer
  500 with \<^verbatim>\<open>details: error.message || error\<close>: the message, or the error object
  where the message is empty.  handler.ts, lines 217-220, answers 500 with
  \<^verbatim>\<open>details: error.message || String(error)\<close>.  handler.ts, lines 295-298, answers 500
  with a fixed text and no details.
\<close>

definition message_or_error :: "js_error \<Rightarrow> details" where
  "message_or_error e = (if error_message e = [] then Thrown e else Text (error_message e))"

definition message_or_string :: "js_error \<Rightarrow> details" where
  "message_or_string e =
     Text (if error_message e = [] then error_toString e else error_message e)"

definition internal_error :: "js_error \<Rightarrow> response" where
  "internal_error e =
     \<lparr>status = 500, body = ErrorJson ''Internal Server Error'' (Some (message_or_error e))\<rparr>"

definition blob_internal_error :: "js_error \<Rightarrow> response" where
  "blob_internal_error e =
     \<lparr>status = 500, body = ErrorJson ''Internal Server Error'' (Some (message_or_string e))\<rparr>"

definition generating_error :: response where
  "generating_error = \<lparr>status = 500, body = ErrorJson ''Error generating crossword puzzle'' None\<rparr>"

section \<open>Generation and normalisation\<close>

text \<open>
  handler.ts, lines 85-99 (and 194-203): the raw text is sanitised, parsed and
  formatted; the first failing step throws.
\<close>

definition normalize :: "runtime \<Rightarrow> string \<Rightarrow> js_error + puzzle" where
  "normalize rt rawContent =
     (case JSON_parse rt (sanitizeJSON rawContent) of
        Inl m \<Rightarrow> Inl (SyntaxError m)
      | Inr parsedResult \<Rightarrow>
          (case formattedResponse rt parsedResult of
             None \<Rightarrow> Inl (TypeError (formatted_TypeError rt parsedResult))
           | Some p \<Rightarrow> Inr p))"

text \<open>
  handler.ts, lines 48-99 (and 161-203): the call, then
  \<^verbatim>\<open>rawContent = content || ""\<close>, where a missing content and the empty string both
  give the empty string.
\<close>

definition generate :: "runtime \<Rightarrow> 'a invocation_scheme \<Rightarrow> js_error + puzzle" where
  "generate rt rq =
     (case completion rq of
        Inl e \<Rightarrow> Inl e
      | Inr content \<Rightarrow> normalize rt (case content of None \<Rightarrow> [] | Some c \<Rightarrow> c))"

text \<open>
  part\_000, lines 37-72 (and handler.ts, lines 248-291): the call, the guard
  \<^verbatim>\<open>if (!content) throw new Error(...)\<close>, which a missing content and the empty string
  both take, then \<^verbatim>\<open>JSON.parse(content)\<close> with no sanitising, and the record.
\<close>

definition generate_entries :: "runtime \<Rightarrow> 'a invocation_scheme \<Rightarrow> js_error + puzzle" where
  "generate_entries rt rq =
     (case completion rq of
        Inl e \<Rightarrow> Inl e
      | Inr content \<Rightarrow>
          (case content of
             None \<Rightarrow> Inl (Error ''No content returned by OpenAI API'')
           | Some c \<Rightarrow>
               if c = [] then Inl (Error ''No content returned by OpenAI API'')
               else
                 (case JSON_parse rt c of
                    Inl m \<Rightarrow> Inl (SyntaxError m)
                  | Inr rawResult \<Rightarrow>
                      (case entriesResponse rt rawResult of
                         None \<Rightarrow> Inl (TypeError (entries_TypeError rt rawResult))
                       | Some p \<Rightarrow> Inr p))))"

section \<open>The handlers with the in-process cache\<close>

text \<open>The module variables \<^verbatim>\<open>cachedResponse\<close> and \<^verbatim>\<open>lastFetched\<close> (lines 15-16).\<close>

record cache =
  cachedResponse :: "puzzle option"
  lastFetched :: "int option"

record cached_result = result +
  cache_after :: cache

text \<open>
  The test of line 40: both variables are set and \<^verbatim>\<open>now\<close> falls on the calendar day
  of \<^verbatim>\<open>lastFetched\<close>; then the cached record is the answer.
\<close>

definition fresh_entry :: "runtime \<Rightarrow> int \<Rightarrow> cache \<Rightarrow> puzzle option" where
  "fresh_entry rt t st =
     (case cachedResponse st of
        None \<Rightarrow> None
      | Some p \<Rightarrow>
          (case lastFetched st of
             None \<Rightarrow> None
           | Some l \<Rightarrow> if toDateString rt t = toDateString rt l then Some p else None))"

text \<open>
  The try block and its catch, shared by the three handlers: \<open>gen\<close> is the generation
  and normalisation, \<open>failed\<close> the answer of the catch block.  The two variables are
  assigned one after the other, after the record is complete.
\<close>

definition regenerate ::
  "(js_error + puzzle) \<Rightarrow> (js_error \<Rightarrow> response) \<Rightarrow> int \<Rightarrow> cache \<Rightarrow> cached_result" where
  "regenerate gen failed t st =
     (case gen of
        Inl e \<Rightarrow> \<lparr>reply = failed e, calls = [ChatCreate], cache_after = st\<rparr>
      | Inr p \<Rightarrow>
          \<lparr>reply = \<lparr>status = 200, body = PuzzleJson p\<rparr>, calls = [ChatCreate],
           cache_after = \<lparr>cachedResponse = Some p, lastFetched = Some t\<rparr>\<rparr>)"

text \<open>handler.ts, lines 26-110.\<close>

definition handler :: "runtime \<Rightarrow> invocation \<Rightarrow> cache \<Rightarrow> cached_result" where
  "handler rt rq st =
     (if req_method rq = ''OPTIONS''
      then \<lparr>reply = \<lparr>status = 200, body = NoBody\<rparr>, calls = [], cache_after = st\<rparr>
      else
        (case fresh_entry rt (now rq) st of
           Some p \<Rightarrow>
             \<lparr>reply = \<lparr>status = 200, body = PuzzleJson p\<rparr>, calls = [], cache_after = st\<rparr>
         | None \<Rightarrow> regenerate (generate rt rq) internal_error (now rq) st))"

text \<open>part\_000, lines 18-80.\<close>

definition handler_part_000 :: "runtime \<Rightarrow> invocation \<Rightarrow> cache \<Rightarrow> cached_result" where
  "handler_part_000 rt rq st =
     (if req_method rq = ''OPTIONS''
      then \<lparr>reply = \<lparr>status = 200, body = NoBody\<rparr>, calls = [], cache_after = st\<rparr>
      else
        (case fresh_entry rt (now rq) st of
           Some p \<Rightarrow>
             \<lparr>reply = \<lparr>status = 200, body = PuzzleJson p\<rparr>, calls = [], cache_after = st\<rparr>
         | None \<Rightarrow> regenerate (generate_entries rt rq) internal_error (now rq) st))"

text \<open>handler.ts, lines 239-299: no preflight branch, and a fixed error body.\<close>

definition handler_entries :: "runtime \<Rightarrow> invocation \<Rightarrow> cache \<Rightarrow> cached_result" where
  "handler_entries rt rq st =
     (case fresh_entry rt (now rq) st of
        Some p \<Rightarrow>
          \<lparr>reply = \<lparr>status = 200, body = PuzzleJson p\<rparr>, calls = [], cache_after = st\<rparr>
      | None \<Rightarrow> regenerate (generate_entries rt rq) (\<lambda>e. generating_error) (now rq) st)"

section \<open>The handler with the blob store\<close>

text \<open>
  What \<^verbatim>\<open>list\<close>, \<^verbatim>\<open>fetch\<close> and \<^verbatim>\<open>put\<close> answer during one run; each may reject.  A
  listed blob has a path name and a URL; a fetched response has its \<^verbatim>\<open>ok\<close> flag and the
  outcome of \<^verbatim>\<open>json()\<close>.
\<close>

record blob =
  pathname :: string
  url :: string

record fetched =
  ok :: bool
  json :: "js_error + jsval"

record blob_invocation = invocation +
  list_blobs :: "string \<Rightarrow> js_error + blob list"
  fetch_url :: "string \<Rightarrow> js_error + fetched"
  put_blob :: "string \<Rightarrow> puzzle \<Rightarrow> js_error + blob"

text \<open>
  handler.ts, lines 126-221.  This module has no variable of its own: every run that is
  no preflight lists the day's directory.  \<^verbatim>\<open>put\<close> is awaited inside the try block, so
  its rejection reaches the catch block.  \<open>BlobPut path p\<close> is the write of
  \<^verbatim>\<open>JSON.stringify(p, null, 2)\<close>.
\<close>

definition today :: "runtime \<Rightarrow> int \<Rightarrow> string" where
  "today rt t = take 10 (toISOString rt t)"

definition puzzlePath :: "runtime \<Rightarrow> int \<Rightarrow> string" where
  "puzzlePath rt t = ''puzzle/'' @ today rt t @ ''/puzzle.json''"

definition puzzleDir :: "runtime \<Rightarrow> int \<Rightarrow> string" where
  "puzzleDir rt t = ''puzzle/'' @ today rt t @ ''/''"

definition handler_blob :: "runtime \<Rightarrow> blob_invocation \<Rightarrow> result" where
  "handler_blob rt rq =
     (if req_method rq = ''OPTIONS''
      then \<lparr>reply = \<lparr>status = 200, body = NoBody\<rparr>, calls = []\<rparr>
      else
        let path = puzzlePath rt (now rq); dir = puzzleDir rt (now rq) in
          (case list_blobs rq dir of
             Inl e \<Rightarrow> \<lparr>reply = blob_internal_error e, calls = [BlobList dir]\<rparr>
           | Inr blobs \<Rightarrow>
               (case find (\<lambda>b. pathname b = path) blobs of
                  Some existingPuzzle \<Rightarrow>
                    (case fetch_url rq (url existingPuzzle) of
                       Inl e \<Rightarrow>
                         \<lparr>reply = blob_internal_error e,
                          calls = [BlobList dir, BlobFetch (url existingPuzzle)]\<rparr>
                     | Inr puzzleResponse \<Rightarrow>
                         if \<not> ok puzzleResponse
                         then
                           \<lparr>reply = \<lparr>status = 500,
                              body = ErrorJson ''Failed to fetch puzzle from Blob'' None\<rparr>,
                            calls = [BlobList dir, BlobFetch (url existingPuzzle)]\<rparr>
                         else
                           (case json puzzleResponse of
                              Inl e \<Rightarrow>
                                \<lparr>reply = blob_internal_error e,
                                 calls = [BlobList dir, BlobFetch (url existingPuzzle)]\<rparr>
                            | Inr puzzleData \<Rightarrow>
                                \<lparr>reply = \<lparr>status = 200, body = ValueJson puzzleData\<rparr>,
                                 calls = [BlobList dir, BlobFetch (url existingPuzzle)]\<rparr>))
                | None \<Rightarrow>
                    (case generate rt rq of
                       Inl e \<Rightarrow>
                         \<lparr>reply = blob_internal_error e, calls = [BlobList dir, ChatCreate]\<rparr>
                     | Inr p \<Rightarrow>
                         (case put_blob rq path p of
                            Inl e \<Rightarrow>
                              \<lparr>reply = blob_internal_error e,
                               calls = [BlobList dir, ChatCreate, BlobPut path p]\<rparr>
                          | Inr b \<Rightarrow>
                              \<lparr>reply = \<lparr>status = 200, body = PuzzleJson p\<rparr>,
                               calls = [BlobList dir, ChatCreate, BlobPut path p]\<rparr>)))))"

section \<open>Concrete inputs\<close>

text \<open>
  A runtime to run the handlers on concrete inputs, with the messages of V8.
  \<^verbatim>\<open>JSON.parse\<close> parses \<open>sample_text\<close> and throws on the empty text with V8's
  message for it.  Every other text is given the answer of the empty text: the other
  texts parsed below are no JSON, and of their error only the class is read, never the
  message.  No \<^verbatim>\<open>TypeError\<close> is thrown below; its message here is V8's for a
  \<^verbatim>\<open>words\<close> that is a number.  \<^verbatim>\<open>toUpperCase\<close> is the one of ASCII texts, and
  the two date texts are those of noon UTC on 17 December 2024, the instant \<open>noon\<close>.
\<close>

definition sample_text :: string where
  "sample_text =
     ''{\"theme\":\"Space\",\"words\":[\"orbit\",\"comet\"],\"clues\":{\"ORBIT\":\"Path around a star\",\"COMET\":\"Icy body with a tail\"}}''"

definition sample_parsed :: jsval where
  "sample_parsed =
     JObject [(''theme'', JString ''Space''),
       (''words'', JArray [JString ''orbit'', JString ''comet'']),
       (''clues'', JObject [(''ORBIT'', JString ''Path around a star''),
          (''COMET'', JString ''Icy body with a tail'')])]"

definition sample_puzzle :: puzzle where
  "sample_puzzle =
     \<lparr>theme = JString ''Space'', words = [JString ''ORBIT'', JString ''COMET''],
      clues = [''ORBIT'' \<mapsto> JString ''Path around a star'',
               ''COMET'' \<mapsto> JString ''Icy body with a tail'']\<rparr>"

definition sample_parse :: "string \<Rightarrow> string + jsval" where
  "sample_parse s =
     (if s = sample_text then Inr sample_parsed else Inl ''Unexpected end of JSON input'')"

definition ascii_upper :: "string \<Rightarrow> string" where
  "ascii_upper s =
     map (\<lambda>c. case map_of (zip ''abcdefghijklmnopqrstuvwxyz'' ''ABCDEFGHIJKLMNOPQRSTUVWXYZ'') c of
                None \<Rightarrow> c | Some u \<Rightarrow> u) s"

definition noon :: int where
  "noon = 1734436800000"

definition sample_rt :: runtime where
  "sample_rt =
     \<lparr>JSON_parse = sample_parse,
      formatted_TypeError = (\<lambda>v. ''parsedResult.words.map is not a function''),
      entries_TypeError = (\<lambda>v. ''rawResult.words.map is not a function''),
      toUpperCase = ascii_upper,
      toDateString = (\<lambda>t. ''Tue Dec 17 2024''),
      toISOString = (\<lambda>t. ''2024-12-17T12:00:00.000Z'')\<rparr>"

text \<open>A GET request at noon whose completion resolves with the given content.\<close>

definition get_request :: "string option \<Rightarrow> invocation" where
  "get_request content = \<lparr>req_method = ''GET'', now = noon, completion = Inr content\<rparr>"


text \<open>The module state before the first request (handler.ts, lines 15-16).\<close>

definition initial_cache :: cache where
  "initial_cache = \<lparr>cachedResponse = None, lastFetched = None\<rparr>"

text \<open>
  A GET request at noon to the blob handler: the listing and the write answer as given,
  the completion resolves with \<open>sample_text\<close>, and a fetch finds the stored record.
\<close>

definition blob_request :: "blob list \<Rightarrow> (js_error + blob) \<Rightarrow> blob_invocation" where
  "blob_request listed written =
     \<lparr>req_method = ''GET'', now = noon, completion = Inr (Some sample_text),
      list_blobs = (\<lambda>dir. Inr listed),
      fetch_url = (\<lambda>u. Inr \<lparr>ok = True, json = Inr sample_parsed\<rparr>),
      put_blob = (\<lambda>path p. written)\<rparr>"

definition stored_blob :: blob where
  "stored_blob =
     \<lparr>pathname = ''puzzle/2024-12-17/puzzle.json'',
      url = ''https://store.example/puzzle/2024-12-17/puzzle.json''\<rparr>"


definition repeated_parsed :: jsval where
  "repeated_parsed =
     JObject [(''theme'', JString ''T''), (''words'', JArray [JString ''moon'', JString ''Moon'']),
       (''clues'', JObject [(''moon'', JString ''a satellite'')])]"

definition repeated_puzzle :: puzzle where
  "repeated_puzzle =
     \<lparr>theme = JString ''T'', words = [JString ''MOON'', JString ''MOON''],
      clues = [''MOON'' \<mapsto> JString ''a satellite'']\<rparr>"

definition entries_parsed :: jsval where
  "entries_parsed =
     JObject [(''theme'', JString ''Space''),
       (''words'', JArray [JObject [(''word'', JString ''orbit''), (''clue'', JString ''Path around a star'')]])]"

definition entries_puzzle :: puzzle where
  "entries_puzzle =
     \<lparr>theme = JString ''Space'', words = [JString ''orbit''],
      clues = [''ORBIT'' \<mapsto> JString ''Path around a star'']\<rparr>"

section \<open>Facts about the sanitiser\<close>

lemma remove_all_Nil [simp]: "remove_all pat [] = []"
  by (simp add: remove_all.simps)

lemma remove_all_match: "pat \<noteq> [] \<Longrightarrow> remove_all pat (pat @ s) = remove_all pat s"
  by (subst remove_all.simps) simp

lemma remove_all_skip: "\<not> prefix pat (c # s) \<Longrightarrow> remove_all pat (c # s) = c # remove_all pat s"
  by (subst remove_all.simps) (auto simp: remove_all.simps)

lemma remove_all_other: "pat \<noteq> [] \<Longrightarrow> c \<noteq> hd pat \<Longrightarrow> remove_all pat (c # s) = c # remove_all pat s"
  by (rule remove_all_skip) (cases pat; simp)

lemma fence_no_pair:
  assumes "\<not> prefix ''``'' s"
  shows "\<not> prefix ''``'' (remove_all ''```'' s)"
proof (cases s)
  case Nil
  then show ?thesis by simp
next
  case (Cons d t)
  show ?thesis
  proof (cases "d = CHR 0x60")
    case False
    then show ?thesis using Cons by (simp add: remove_all_other)
  next
    case True
    have nt: "\<not> prefix ''`'' t" using assms Cons True by simp
    have "remove_all ''```'' t = [] \<or> hd (remove_all ''```'' t) \<noteq> CHR 0x60"
      using nt by (cases t) (auto simp: remove_all_other)
    moreover have "\<not> prefix ''```'' (d # t)" using nt True by (cases t) auto
    then have "remove_all ''```'' s = d # remove_all ''```'' t"
      using Cons by (simp add: remove_all_skip)
    ultimately show ?thesis using True by (cases "remove_all ''```'' t") auto
  qed
qed

lemma fence_gone: "\<not> sublist ''```'' (remove_all ''```'' s)"
proof (induction "''```''" s rule: remove_all.induct)
  case (1 s)
  show ?case
  proof (cases "s = []")
    case True
    then show ?thesis by simp
  next
    case ne: False
    show ?thesis
    proof (cases "prefix ''```'' s")
      case True
      then have "remove_all ''```'' s = remove_all ''```'' (drop (length ''```'') s)"
        using ne by (subst remove_all.simps) simp
      then show ?thesis using 1(1) ne True by simp
    next
      case False
      obtain c t where s: "s = c # t" using ne by (cases s) auto
      have r: "remove_all ''```'' s = c # remove_all ''```'' t"
        using False s by (simp add: remove_all_skip)
      have ih: "\<not> sublist ''```'' (remove_all ''```'' t)"
        using 1(2) ne False s by simp
      have "\<not> prefix ''```'' (c # remove_all ''```'' t)"
      proof (cases "c = CHR 0x60")
        case True
        then have "\<not> prefix ''``'' t" using False s by simp
        from fence_no_pair[OF this] show ?thesis by simp
      qed simp
      then show ?thesis using ih r by (simp add: sublist_Cons_right)
    qed
  qed
qed

lemma trim_sublist: "sublist (trim s) s"
proof -
  have "prefix (rev (dropWhile is_space (rev (dropWhile is_space s)))) (dropWhile is_space s)"
    by (metis suffix_dropWhile suffix_to_prefix rev_rev_ident)
  moreover have "suffix (dropWhile is_space s) s" by (rule suffix_dropWhile)
  ultimately show ?thesis unfolding trim_def
    by (meson prefix_imp_sublist suffix_imp_sublist sublist_order.order.trans)
qed


lemma remove_all_pass:
  "pat \<noteq> [] \<Longrightarrow> hd pat \<notin> set w \<Longrightarrow> remove_all pat (w @ s) = w @ remove_all pat s"
  by (induction w) (auto simp: remove_all_other)

lemma remove_all_append:
  assumes p: "pat \<noteq> []"
    and y: "\<And>us vs. pat = us @ vs \<Longrightarrow> us \<noteq> [] \<Longrightarrow> vs \<noteq> [] \<Longrightarrow> \<not> prefix vs y"
  shows "remove_all pat (x @ y) = remove_all pat x @ remove_all pat y"
  using p y
proof (induction pat x rule: remove_all.induct)
  case (1 pat x)
  show ?case
  proof (cases "x = []")
    case True
    then show ?thesis by simp
  next
    case ne: False
    show ?thesis
    proof (cases "prefix pat x")
      case True
      then obtain r where x: "x = pat @ r" by (auto simp: prefix_def)
      have "remove_all pat (x @ y) = remove_all pat (r @ y)"
        using x "1.prems"(1) remove_all_match[of pat "r @ y"] by simp
      moreover have "remove_all pat x = remove_all pat r"
        using x "1.prems"(1) remove_all_match[of pat r] by simp
      moreover have "remove_all pat (r @ y) = remove_all pat r @ remove_all pat y"
        using "1.IH"(1)[OF _ True] ne x "1.prems" by simp
      ultimately show ?thesis by simp
    next
      case False
      obtain c t where x: "x = c # t" using ne by (cases x) auto
      have "\<not> prefix pat (x @ y)"
      proof
        assume "prefix pat (x @ y)"
        then obtain vs where v: "pat = x @ vs" "prefix vs y"
          using False by (auto simp: prefix_append)
        moreover have "vs \<noteq> []" using v False by auto
        ultimately show False using "1.prems"(2)[of x vs] ne by simp
      qed
      then have "remove_all pat (x @ y) = c # remove_all pat (t @ y)"
        using x by (simp add: remove_all_skip)
      moreover have "remove_all pat x = c # remove_all pat t"
        using x False by (simp add: remove_all_skip)
      moreover have "remove_all pat (t @ y) = remove_all pat t @ remove_all pat y"
        using "1.IH"(2)[OF _ False] ne x "1.prems" by simp
      ultimately show ?thesis by simp
    qed
  qed
qed

lemma trim_spaces:
  assumes a: "list_all is_space a" and b: "list_all is_space b"
  shows "trim (a @ x @ b) = trim x"
proof -
  have 1: "dropWhile is_space (a @ x @ b) = dropWhile is_space (x @ b)"
    using a by (simp add: dropWhile_append2 list_all_iff)
  show ?thesis
  proof (cases "list_all is_space x")
    case True
    then have "\<forall>c\<in>set (x @ b). is_space c" "\<forall>c\<in>set x. is_space c"
      using b by (auto simp: list_all_iff)
    then have e: "dropWhile is_space (x @ b) = []" "dropWhile is_space x = []"
      unfolding dropWhile_eq_Nil_conv by blast+
    show ?thesis by (simp only: trim_def 1 e)
  next
    case False
    then obtain c where "c \<in> set x" "\<not> is_space c" by (auto simp: list_all_iff)
    then have 2: "dropWhile is_space (x @ b) = dropWhile is_space x @ b"
      by (simp add: dropWhile_append1)
    have 3: "dropWhile is_space (rev b @ z) = dropWhile is_space z" for z
      using b by (intro dropWhile_append2) (simp add: list_all_iff)
    show ?thesis by (simp only: trim_def 1 2 rev_append 3)
  qed
qed

lemma space_chars:
  "is_space c \<Longrightarrow> c \<noteq> CHR 0x60 \<and> c \<noteq> CHR ''j'' \<and> c \<noteq> CHR ''s'' \<and> c \<noteq> CHR ''o'' \<and> c \<noteq> CHR ''n''"
  by (auto simp: is_space_def)

lemma spaces_no_fence: "list_all is_space w \<Longrightarrow> CHR 0x60 \<notin> set w"
  by (auto simp: list_all_iff dest: space_chars)

lemma remove_all_spaces:
  "pat \<noteq> [] \<Longrightarrow> hd pat = CHR 0x60 \<Longrightarrow> list_all is_space w \<Longrightarrow> remove_all pat (w @ s) = w @ remove_all pat s"
  by (rule remove_all_pass) (auto dest: spaces_no_fence)

lemma remove_all_spaces_only:
  "pat \<noteq> [] \<Longrightarrow> hd pat = CHR 0x60 \<Longrightarrow> list_all is_space w \<Longrightarrow> remove_all pat w = w"
  using remove_all_spaces[of pat w "[]"] by simp

lemma closing_json_kept:
  assumes d: "list_all is_space d"
  shows "remove_all ''```json'' (''```'' @ d) = ''```'' @ d"
proof -
  have n: "\<not> prefix ''json'' d" "\<not> prefix ''`json'' d" "\<not> prefix ''``json'' d"
    using d by (cases d; auto dest: space_chars)+
  show ?thesis using n remove_all_spaces_only[OF _ _ d, of "''```json''"]
    by (simp add: remove_all_skip)
qed

lemma closing_json:
  assumes c: "list_all is_space c" and d: "list_all is_space d"
  shows "remove_all ''```json'' (t @ c @ ''```'' @ d) = remove_all ''```json'' t @ c @ ''```'' @ d"
proof -
  have "remove_all ''```json'' (t @ (c @ ''```'' @ d))
      = remove_all ''```json'' t @ remove_all ''```json'' (c @ ''```'' @ d)"
  proof (rule remove_all_append)
    fix us vs :: string
    assume "''```json'' = us @ vs" "us \<noteq> []" "vs \<noteq> []"
    then have "vs \<in> {''``json'', ''`json'', ''json'', ''son'', ''on'', ''n''}"
      by (auto simp: Cons_eq_append_conv)
    then show "\<not> prefix vs (c @ ''```'' @ d)"
      using c by (cases c) (auto dest: space_chars)
  qed simp
  also have "remove_all ''```json'' (c @ ''```'' @ d) = c @ ''```'' @ d"
    using remove_all_spaces[OF _ _ c, of "''```json''" "''```'' @ d"] closing_json_kept[OF d]
    by simp
  finally show ?thesis by simp
qed

lemma closing_fence_direct:
  assumes d: "list_all is_space d"
  shows "remove_all ''```'' (x @ ''```'' @ d) = remove_all ''```'' x @ d"
proof (induction "''```''" x rule: remove_all.induct)
  case (1 x)
  have dd: "remove_all ''```'' d = d"
    using remove_all_spaces_only[OF _ _ d, of "''```''"] by simp
  have nd: "\<not> prefix ''`'' d" "\<not> prefix ''``'' d"
    using d by (cases d; auto dest: space_chars)+
  show ?case
  proof (cases "x = []")
    case True
    then show ?thesis using remove_all_match[of "''```''" d] dd by simp
  next
    case ne: False
    show ?thesis
    proof (cases "prefix ''```'' x")
      case True
      then obtain r where x: "x = ''```'' @ r" by (auto simp: prefix_def)
      have "remove_all ''```'' (x @ ''```'' @ d) = remove_all ''```'' (r @ ''```'' @ d)"
        using x remove_all_match[of "''```''" "r @ ''```'' @ d"] by simp
      moreover have "remove_all ''```'' x = remove_all ''```'' r"
        using x remove_all_match[of "''```''" r] by simp
      moreover have "remove_all ''```'' (r @ ''```'' @ d) = remove_all ''```'' r @ d"
        using "1.hyps"(1)[OF _ True] ne x by simp
      ultimately show ?thesis by simp
    next
      case False
      obtain c t where x: "x = c # t" using ne by (cases x) auto
      show ?thesis
      proof (cases "prefix ''```'' (x @ ''```'' @ d)")
        case True
        then obtain vs where "''```'' = x @ vs" using False by (auto simp: prefix_append)
        then have "x = ''`'' \<or> x = ''``''"
          using ne False by (auto simp: Cons_eq_append_conv)
        then show ?thesis
        proof
          assume x1: "x = ''`''"
          have "remove_all ''```'' (''```'' @ (''`'' @ d)) = remove_all ''```'' (''`'' @ d)"
            by (rule remove_all_match) simp
          then show ?thesis using x1 nd dd by (simp add: remove_all_skip)
        next
          assume x2: "x = ''``''"
          have "remove_all ''```'' (''```'' @ (''``'' @ d)) = remove_all ''```'' (''``'' @ d)"
            by (rule remove_all_match) simp
          then show ?thesis using x2 nd dd by (simp add: remove_all_skip)
        qed
      next
        case nf: False
        then have "remove_all ''```'' (x @ ''```'' @ d) = c # remove_all ''```'' (t @ ''```'' @ d)"
          using x by (simp add: remove_all_skip)
        moreover have "remove_all ''```'' x = c # remove_all ''```'' t"
          using x False by (simp add: remove_all_skip)
        moreover have "remove_all ''```'' (t @ ''```'' @ d) = remove_all ''```'' t @ d"
          using "1.hyps"(2)[OF _ False] ne x by simp
        ultimately show ?thesis by simp
      qed
    qed
  qed
qed

lemma closing_fence:
  assumes c: "list_all is_space c" and d: "list_all is_space d"
  shows "remove_all ''```'' (x @ c @ ''```'' @ d) = remove_all ''```'' x @ c @ d"
proof (cases "c = []")
  case True
  then show ?thesis using closing_fence_direct[OF d] by simp
next
  case False
  have "remove_all ''```'' (x @ (c @ ''```'' @ d))
      = remove_all ''```'' x @ remove_all ''```'' (c @ ''```'' @ d)"
  proof (rule remove_all_append)
    fix us vs :: string
    assume "''```'' = us @ vs" "us \<noteq> []" "vs \<noteq> []"
    then have "vs \<in> {''``'', ''`''}"
      by (auto simp: Cons_eq_append_conv)
    then show "\<not> prefix vs (c @ ''```'' @ d)"
      using c False by (cases c) (auto dest: space_chars)
  qed simp
  also have "remove_all ''```'' (c @ ''```'' @ d) = c @ d"
    using remove_all_spaces[OF _ _ c, of "''```''" "''```'' @ d"] closing_fence_direct[OF d, of "[]"]
    by simp
  finally show ?thesis by simp
qed

lemma opening_json:
  assumes tag: "tag = ''json'' \<or> (tag = [] \<and> b \<noteq> [])" and b: "list_all is_space b"
  shows "remove_all ''```'' (remove_all ''```json'' (''```'' @ tag @ b @ r))
       = b @ remove_all ''```'' (remove_all ''```json'' r)"
  using tag
proof
  assume t: "tag = ''json''"
  have "remove_all ''```json'' (''```json'' @ (b @ r)) = remove_all ''```json'' (b @ r)"
    by (rule remove_all_match) simp
  then have "remove_all ''```json'' (''```'' @ tag @ b @ r) = b @ remove_all ''```json'' r"
    using t remove_all_spaces[OF _ _ b, of "''```json''" r] by simp
  then show ?thesis using remove_all_spaces[OF _ _ b, of "''```''"] by simp
next
  assume t: "tag = [] \<and> b \<noteq> []"
  then obtain s b' where bb: "b = s # b'" by (cases b) auto
  then have s: "is_space s" using b by simp
  have "remove_all ''```json'' (''```'' @ b @ r) = ''```'' @ remove_all ''```json'' (b @ r)"
    using bb space_chars[OF s] by (auto simp: remove_all_skip)
  then have "remove_all ''```json'' (''```'' @ tag @ b @ r) = ''```'' @ (b @ remove_all ''```json'' r)"
    using t remove_all_spaces[OF _ _ b, of "''```json''" r] by simp
  moreover have "remove_all ''```'' (''```'' @ (b @ remove_all ''```json'' r))
      = remove_all ''```'' (b @ remove_all ''```json'' r)"
    by (rule remove_all_match) simp
  ultimately show ?thesis using remove_all_spaces[OF _ _ b, of "''```''"] by simp
qed

lemma sanitize_fenced_eq:
  assumes "list_all is_space a" and "list_all is_space b"
    and "list_all is_space c" and "list_all is_space d"
    and "tag = ''json'' \<or> (tag = [] \<and> b \<noteq> [])"
  shows "sanitizeJSON (fenced a tag b t c d) = sanitizeJSON t"
proof -
  let ?r = "t @ c @ ''```'' @ d"
  have "remove_all ''```'' (remove_all ''```json'' (fenced a tag b t c d))
      = a @ remove_all ''```'' (remove_all ''```json'' (''```'' @ tag @ b @ ?r))"
    using remove_all_spaces[OF _ _ assms(1), of "''```json''"]
      remove_all_spaces[OF _ _ assms(1), of "''```''"]
    by (simp add: fenced_def)
  also have "\<dots> = a @ b @ remove_all ''```'' (remove_all ''```json'' ?r)"
    using opening_json[OF assms(5) assms(2)] by simp
  also have "\<dots> = a @ b @ remove_all ''```'' (remove_all ''```json'' t) @ c @ d"
    using closing_json[OF assms(3) assms(4)] closing_fence[OF assms(3) assms(4)] by simp
  finally have "remove_all ''```'' (remove_all ''```json'' (fenced a tag b t c d))
      = (a @ b) @ remove_all ''```'' (remove_all ''```json'' t) @ (c @ d)"
    by simp
  moreover have "list_all is_space (a @ b)" "list_all is_space (c @ d)"
    using assms by simp_all
  ultimately show ?thesis
    unfolding sanitizeJSON_def using trim_spaces by metis
qed

section \<open>Facts about the records and the handlers\<close>

lemma dom_fold_update:
  "dom (foldl (\<lambda>m (k, v). m(k \<mapsto> v)) m0 kvs) = dom m0 \<union> fst ` set kvs"
  by (induction kvs arbitrary: m0) (auto simp: case_prod_beta)

lemma dom_fromEntries: "dom (Object_fromEntries kvs) = fst ` set kvs"
  by (simp add: Object_fromEntries_def dom_fold_update)

lemma array_map_Some: "array_map f xs = Some ys \<Longrightarrow> map f xs = map Some ys"
  by (induction xs arbitrary: ys) (auto split: Option.bind_splits)

lemma map_Some_eq: "map Some xs = map (\<lambda>w. Some (f w)) ws \<Longrightarrow> xs = map f ws"
  by (induction xs arbitrary: ws) auto

lemma upper_Some: "upper rt v = Some u \<Longrightarrow> \<exists>s. v = JString s \<and> u = toUpperCase rt s"
  by (cases v) auto

lemma array_map_upper:
  "array_map (upper rt) es = Some us \<Longrightarrow> \<exists>ws. es = map JString ws \<and> us = map (toUpperCase rt) ws"
proof (induction es arbitrary: us)
  case Nil
  then show ?case by simp
next
  case (Cons e es)
  then obtain u us' where u: "upper rt e = Some u" "array_map (upper rt) es = Some us'" "us = u # us'"
    by (auto split: Option.bind_splits)
  from upper_Some[OF u(1)] obtain s where "e = JString s" "u = toUpperCase rt s" by blast
  moreover from Cons.IH[OF u(2)] obtain ws where "es = map JString ws" "us' = map (toUpperCase rt) ws"
    by blast
  ultimately have "e # es = map JString (s # ws) \<and> us = map (toUpperCase rt) (s # ws)"
    using u(3) by simp
  then show ?case by (rule exI[of _ "s # ws"])
qed

lemma formattedResponse_Some:
  assumes "formattedResponse rt v = Some p"
  shows "\<exists>th ws cl kvs.
     get_prop v ''theme'' = Some th \<and>
     get_prop v ''words'' = Some (JArray (map JString ws)) \<and>
     get_prop v ''clues'' = Some cl \<and> Object_entries cl = Some kvs \<and>
     p = \<lparr>theme = th, words = map (\<lambda>w. JString (toUpperCase rt w)) ws,
          clues = Object_fromEntries (map (\<lambda>(word, clue). (toUpperCase rt word, clue)) kvs)\<rparr>"
proof -
  from assms obtain th a es us cl kvs where
    h: "get_prop v ''theme'' = Some th" "get_prop v ''words'' = Some a" "elements a = Some es"
      "array_map (upper rt) es = Some us" "get_prop v ''clues'' = Some cl"
      "Object_entries cl = Some kvs"
      "p = \<lparr>theme = th, words = map JString us,
          clues = Object_fromEntries (map (\<lambda>(word, clue). (toUpperCase rt word, clue)) kvs)\<rparr>"
    unfolding formattedResponse_def by (auto split: Option.bind_splits)
  have a: "a = JArray es" using h(3) by (cases a) auto
  from array_map_upper[OF h(4)] obtain ws where
    ws: "es = map JString ws" "us = map (toUpperCase rt) ws" by blast
  show ?thesis
    by (rule exI[of _ th], rule exI[of _ ws], rule exI[of _ cl], rule exI[of _ kvs])
      (use h a ws in \<open>simp add: comp_def\<close>)
qed


lemma reduce_clues_dom:
  "reduce_clues rt es acc = Some m \<Longrightarrow>
     \<exists>ws. map (\<lambda>e. get_prop e ''word'') es = map (\<lambda>w. Some (JString w)) ws \<and>
          dom m = dom acc \<union> toUpperCase rt ` set ws"
proof (induction es arbitrary: acc)
  case Nil
  then show ?case by simp
next
  case (Cons e es)
  then obtain w k c where
    h: "get_prop e ''word'' = Some w" "upper rt w = Some k" "get_prop e ''clue'' = Some c"
      "reduce_clues rt es (acc(k \<mapsto> c)) = Some m"
    by (auto split: Option.bind_splits)
  from upper_Some[OF h(2)] obtain s where s: "w = JString s" "k = toUpperCase rt s" by blast
  from Cons.IH[OF h(4)] obtain ws where
    ws: "map (\<lambda>e. get_prop e ''word'') es = map (\<lambda>w. Some (JString w)) ws"
      "dom m = dom (acc(k \<mapsto> c)) \<union> toUpperCase rt ` set ws" by blast
  have "map (\<lambda>e. get_prop e ''word'') (e # es) = map (\<lambda>w. Some (JString w)) (s # ws) \<and>
      dom m = dom acc \<union> toUpperCase rt ` set (s # ws)"
    using h(1) s ws by auto
  then show ?case by (rule exI[of _ "s # ws"])
qed

lemma entriesResponse_Some:
  assumes "entriesResponse rt v = Some p"
  shows "\<exists>es ws.
     get_prop v ''words'' = Some (JArray es) \<and>
     map (\<lambda>e. get_prop e ''word'') es = map (\<lambda>w. Some (JString w)) ws \<and>
     words p = map JString ws \<and> dom (clues p) = toUpperCase rt ` set ws"
proof -
  from assms obtain th a es wl cl where
    h: "get_prop v ''theme'' = Some th" "get_prop v ''words'' = Some a" "elements a = Some es"
      "array_map (\<lambda>entry. get_prop entry ''word'') es = Some wl"
      "reduce_clues rt es Map.empty = Some cl"
      "p = \<lparr>theme = th, words = wl, clues = cl\<rparr>"
    unfolding entriesResponse_def by (auto split: Option.bind_splits)
  have a: "a = JArray es" using h(3) by (cases a) auto
  from reduce_clues_dom[OF h(5)] obtain ws where
    ws: "map (\<lambda>e. get_prop e ''word'') es = map (\<lambda>w. Some (JString w)) ws"
      "dom cl = toUpperCase rt ` set ws" by auto
  have "map Some wl = map (\<lambda>w. Some (JString w)) ws"
    using array_map_Some[OF h(4)] ws(1) by simp
  then have "wl = map JString ws" by (rule map_Some_eq)
  then show ?thesis
    by (intro exI[of _ es] exI[of _ ws]) (use h a ws in simp)
qed

lemma sample_sanitized: "sanitizeJSON sample_text = sample_text"
  by (simp add: sample_text_def sanitizeJSON_def trim_def is_space_def remove_all.simps)

lemma sample_formatted: "formattedResponse sample_rt sample_parsed = Some sample_puzzle"
  by (simp add: formattedResponse_def sample_parsed_def sample_puzzle_def sample_rt_def
      ascii_upper_def Object_fromEntries_def)

lemma sample_normalized: "normalize sample_rt sample_text = Inr sample_puzzle"
proof -
  have "JSON_parse sample_rt sample_text = Inr sample_parsed"
    by (simp add: sample_rt_def sample_parse_def)
  then show ?thesis by (simp add: normalize_def sample_sanitized sample_formatted)
qed

lemma empty_text: "normalize sample_rt [] = Inl (SyntaxError ''Unexpected end of JSON input'')"
  by (simp add: normalize_def sample_rt_def sample_parse_def sample_text_def
      sanitizeJSON_def trim_def remove_all.simps)



text \<open>
  What a failure of generation or normalisation is: the call rejects, the sanitised text
  does not parse, or building the record throws.
\<close>

lemma generate_fails:
  "generate rt rq = Inl e \<longleftrightarrow>
     completion rq = Inl e \<or>
     (\<exists>content. completion rq = Inr content \<and>
        normalize rt (case content of None \<Rightarrow> [] | Some c \<Rightarrow> c) = Inl e)"
  by (auto simp: generate_def split: sum.splits)

lemma normalize_fails:
  "normalize rt raw = Inl e \<longleftrightarrow>
     (\<exists>m. JSON_parse rt (sanitizeJSON raw) = Inl m \<and> e = SyntaxError m) \<or>
     (\<exists>v. JSON_parse rt (sanitizeJSON raw) = Inr v \<and> formattedResponse rt v = None \<and>
        e = TypeError (formatted_TypeError rt v))"
  by (auto simp: normalize_def split: option.splits sum.splits)

lemma fresh_entry_Some:
  "fresh_entry rt t st = Some p \<longleftrightarrow>
     cachedResponse st = Some p \<and>
     (\<exists>l. lastFetched st = Some l \<and> toDateString rt t = toDateString rt l)"
  by (auto simp: fresh_entry_def split: option.splits)

lemma regenerate_cache:
  "cache_after (regenerate gen failed t st) = st \<or>
   (\<exists>p. cache_after (regenerate gen failed t st) = \<lparr>cachedResponse = Some p, lastFetched = Some t\<rparr>)"
  by (cases gen) (simp_all add: regenerate_def)

lemma sample_generated: "generate sample_rt (blob_request listed written) = Inr sample_puzzle"
  using sample_normalized by (simp add: generate_def blob_request_def)

lemma blob_request_fields:
  "req_method (blob_request listed written) = ''GET''"
  "now (blob_request listed written) = noon"
  "list_blobs (blob_request listed written) dir = Inr listed"
  "fetch_url (blob_request listed written) u = Inr \<lparr>ok = True, json = Inr sample_parsed\<rparr>"
  "put_blob (blob_request listed written) path p = written"
  by (simp_all add: blob_request_def)

lemma sample_paths:
  "puzzleDir sample_rt t = ''puzzle/2024-12-17/''"
  "puzzlePath sample_rt t = ''puzzle/2024-12-17/puzzle.json''"
  by (simp_all add: puzzleDir_def puzzlePath_def today_def sample_rt_def)

lemma get_request_fields:
  "req_method (get_request content) = ''GET''"
  "now (get_request content) = noon"
  "completion (get_request content) = Inr content"
  by (simp_all add: get_request_def)

lemma fresh_entry_initial: "fresh_entry rt t initial_cache = None"
  by (simp add: fresh_entry_def initial_cache_def)

section \<open>The sanitiser and code fences\<close>

text \<open>
  C10: sanitisation deletes every occurrence of the triple backtick, wherever it stands:
  for every input, the sanitised text contains neither \<^verbatim>\<open>```\<close> nor \<^verbatim>\<open>```json\<close>,
  also when the input has one inside a JSON string such as a clue.
\<close>

theorem sanitize_removes_every_fence:
  "\<not> sublist ''```'' (sanitizeJSON s) \<and> \<not> sublist ''```json'' (sanitizeJSON s)"
proof -
  have a: "\<not> sublist ''```'' (sanitizeJSON s)"
    unfolding sanitizeJSON_def using fence_gone trim_sublist sublist_order.order.trans by blast
  have "sublist ''```'' ''```json''" by (rule prefix_imp_sublist) simp
  then have "\<not> sublist ''```json'' (sanitizeJSON s)"
    using a sublist_order.order.trans by blast
  then show ?thesis using a by simp
qed

text \<open>
  C7, as amended: for every text \<open>t\<close>, normalising \<open>t\<close> between a leading triple
  backtick, whose language tag is \<^verbatim>\<open>json\<close> or is missing (and then white space
  follows the marker), and a trailing triple backtick, with any white space around the
  markers, gives the result of normalising \<open>t\<close> itself.
\<close>

theorem fenced_text_normalizes_alike:
  assumes "list_all is_space a" and "list_all is_space b"
    and "list_all is_space c" and "list_all is_space d"
    and "tag = ''json'' \<or> (tag = [] \<and> b \<noteq> [])"
  shows "sanitizeJSON (fenced a tag b t c d) = sanitizeJSON t \<and>
         normalize rt (fenced a tag b t c d) = normalize rt t"
  using sanitize_fenced_eq[OF assms] by (simp add: normalize_def)

theorem fenced_text_normalizes_alike_witness:
  "list_all is_space '' '' \<and> list_all is_space [CHR 0x0A] \<and> list_all is_space [] \<and>
   normalize sample_rt (fenced '' '' ''json'' [CHR 0x0A] sample_text [] [CHR 0x0A]) =
     Inr sample_puzzle"
  using fenced_text_normalizes_alike[of "'' ''" "[CHR 0x0A]" "[]" "[CHR 0x0A]" "''json''"
      sample_text sample_rt] sample_normalized
  by (simp add: is_space_def)

text \<open>
  C7 as stated fails for a language tag other than \<^verbatim>\<open>json\<close>: only the backticks of
  the marker are deleted, the tag stays, and the text no longer parses.
\<close>

theorem other_language_tag_counterexample:
  "sanitizeJSON (fenced [] ''js'' [CHR 0x0A] sample_text [CHR 0x0A] []) =
     ''js'' @ [CHR 0x0A] @ sample_text \<and>
   map_sum error_name id
     (normalize sample_rt (fenced [] ''js'' [CHR 0x0A] sample_text [CHR 0x0A] [])) =
     Inl ''SyntaxError'' \<and>
   normalize sample_rt sample_text = Inr sample_puzzle"
proof -
  have "sanitizeJSON (fenced [] ''js'' [CHR 0x0A] sample_text [CHR 0x0A] []) =
     ''js'' @ [CHR 0x0A] @ sample_text"
    by (simp add: fenced_def sample_text_def sanitizeJSON_def trim_def is_space_def
        remove_all.simps)
  moreover have "isl (JSON_parse sample_rt (''js'' @ [CHR 0x0A] @ sample_text))"
    by (simp add: sample_rt_def sample_parse_def sample_text_def)
  ultimately show ?thesis
    using sample_normalized by (auto simp: normalize_def isl_def)
qed

section \<open>The in-process cache\<close>

text \<open>
  C6: on the memory-hit path (both variables set, and \<open>now\<close> on the calendar day of
  \<open>lastFetched\<close>) the handler makes no external call, leaves the cache as it is and,
  unless the request is the preflight, answers 200 with the cached puzzle.  The three
  handlers with a cache agree on it.
\<close>

theorem memory_hit_makes_no_call:
  assumes "cachedResponse st = Some p" and "lastFetched st = Some l"
    and "toDateString rt (now rq) = toDateString rt l"
  shows "calls (handler rt rq st) = [] \<and> cache_after (handler rt rq st) = st \<and>
     (req_method rq \<noteq> ''OPTIONS'' \<longrightarrow>
        reply (handler rt rq st) = \<lparr>status = 200, body = PuzzleJson p\<rparr>) \<and>
     calls (handler_part_000 rt rq st) = [] \<and> cache_after (handler_part_000 rt rq st) = st \<and>
     (req_method rq \<noteq> ''OPTIONS'' \<longrightarrow>
        reply (handler_part_000 rt rq st) = \<lparr>status = 200, body = PuzzleJson p\<rparr>) \<and>
     handler_entries rt rq st =
        \<lparr>reply = \<lparr>status = 200, body = PuzzleJson p\<rparr>, calls = [], cache_after = st\<rparr>"
proof -
  have "fresh_entry rt (now rq) st = Some p"
    using assms by (simp add: fresh_entry_Some)
  then show ?thesis
    by (simp add: handler_def handler_part_000_def handler_entries_def)
qed

theorem memory_hit_makes_no_call_witness:
  "handler sample_rt (get_request None) \<lparr>cachedResponse = Some sample_puzzle, lastFetched = Some (noon - 1000)\<rparr> =
     \<lparr>reply = \<lparr>status = 200, body = PuzzleJson sample_puzzle\<rparr>, calls = [],
      cache_after = \<lparr>cachedResponse = Some sample_puzzle, lastFetched = Some (noon - 1000)\<rparr>\<rparr>"
  using memory_hit_makes_no_call[of "\<lparr>cachedResponse = Some sample_puzzle, lastFetched = Some (noon - 1000)\<rparr>"
      sample_puzzle "noon - 1000" sample_rt "get_request None"]
  by (simp add: sample_rt_def get_request_def cached_result.equality)

text \<open>
  C9: \<open>cachedResponse\<close> and \<open>lastFetched\<close> are assigned only together: a run
  leaves the cache as it was or sets both, so from a state where both are null or both
  are set, a run ends in such a state.
\<close>

theorem cache_variables_set_together:
  assumes "cachedResponse st = None \<longleftrightarrow> lastFetched st = None"
  shows "(cachedResponse (cache_after (handler rt rq st)) = None \<longleftrightarrow>
            lastFetched (cache_after (handler rt rq st)) = None) \<and>
         (cachedResponse (cache_after (handler_part_000 rt rq st)) = None \<longleftrightarrow>
            lastFetched (cache_after (handler_part_000 rt rq st)) = None) \<and>
         (cachedResponse (cache_after (handler_entries rt rq st)) = None \<longleftrightarrow>
            lastFetched (cache_after (handler_entries rt rq st)) = None) \<and>
         (cache_after (handler rt rq st) = st \<or>
            (\<exists>p. cache_after (handler rt rq st) =
               \<lparr>cachedResponse = Some p, lastFetched = Some (now rq)\<rparr>)) \<and>
         (cache_after (handler_part_000 rt rq st) = st \<or>
            (\<exists>p. cache_after (handler_part_000 rt rq st) =
               \<lparr>cachedResponse = Some p, lastFetched = Some (now rq)\<rparr>)) \<and>
         (cache_after (handler_entries rt rq st) = st \<or>
            (\<exists>p. cache_after (handler_entries rt rq st) =
               \<lparr>cachedResponse = Some p, lastFetched = Some (now rq)\<rparr>))"
proof -
  have c: "cache_after (h rt rq st) = st \<or>
      (\<exists>p. cache_after (h rt rq st) = \<lparr>cachedResponse = Some p, lastFetched = Some (now rq)\<rparr>)"
    if "h = handler \<or> h = handler_part_000 \<or> h = handler_entries" for h
    using that regenerate_cache[of "generate rt rq" internal_error "now rq" st]
      regenerate_cache[of "generate_entries rt rq" internal_error "now rq" st]
      regenerate_cache[of "generate_entries rt rq" "\<lambda>e. generating_error" "now rq" st]
    by (auto simp: handler_def handler_part_000_def handler_entries_def split: option.splits)
  have r: "cachedResponse (cache_after (h rt rq st)) = None \<longleftrightarrow>
      lastFetched (cache_after (h rt rq st)) = None"
    if "h = handler \<or> h = handler_part_000 \<or> h = handler_entries" for h
    using c[OF that] assms by auto
  show ?thesis
    by (intro conjI) (rule r c; simp)+
qed

theorem cache_variables_set_together_witness:
  "(cachedResponse initial_cache = None \<longleftrightarrow> lastFetched initial_cache = None) \<and>
   cache_after (handler sample_rt (get_request (Some sample_text)) initial_cache) =
     \<lparr>cachedResponse = Some sample_puzzle, lastFetched = Some noon\<rparr>"
  using cache_variables_set_together[of initial_cache sample_rt "get_request (Some sample_text)"]
    sample_normalized
  by (simp add: handler_def fresh_entry_def initial_cache_def generate_def get_request_def
      regenerate_def)




text \<open>
  C8: a completion with no content.  handler.ts (lines 80-88, and 193-195 in the blob
  handler) turns a missing or empty content into the empty text and normalises that: the
  answer is the one \<^verbatim>\<open>JSON.parse\<close> gives for the empty text, the 500 of a text that
  does not parse.  part\_000 throws an error of its own before it parses.
\<close>

theorem missing_content_is_a_syntax_error:
  "generate rt (rq\<lparr>completion := Inr None\<rparr>) = normalize rt [] \<and>
   generate rt (rq\<lparr>completion := Inr (Some [])\<rparr>) = normalize rt [] \<and>
   handler sample_rt (get_request None) initial_cache =
     \<lparr>reply = \<lparr>status = 500,
        body = ErrorJson ''Internal Server Error'' (Some (Text ''Unexpected end of JSON input''))\<rparr>,
      calls = [ChatCreate], cache_after = initial_cache\<rparr> \<and>
   handler sample_rt (get_request (Some [])) initial_cache =
     handler sample_rt (get_request None) initial_cache \<and>
   reply (handler_blob sample_rt ((blob_request [] (Inr stored_blob))\<lparr>completion := Inr None\<rparr>)) =
     \<lparr>status = 500,
      body = ErrorJson ''Internal Server Error'' (Some (Text ''Unexpected end of JSON input''))\<rparr> \<and>
   reply (handler_part_000 sample_rt (get_request None) initial_cache) =
     \<lparr>status = 500,
      body = ErrorJson ''Internal Server Error''
        (Some (Text ''No content returned by OpenAI API''))\<rparr>"
proof -
  have g: "generate sample_rt (get_request None) =
        Inl (SyntaxError ''Unexpected end of JSON input'')"
    "generate sample_rt (get_request (Some [])) =
        Inl (SyntaxError ''Unexpected end of JSON input'')"
    "generate sample_rt ((blob_request [] (Inr stored_blob))\<lparr>completion := Inr None\<rparr>) =
        Inl (SyntaxError ''Unexpected end of JSON input'')"
    using empty_text by (simp_all add: generate_def get_request_fields)
  have e: "generate_entries sample_rt (get_request None) =
      Inl (Error ''No content returned by OpenAI API'')"
    by (simp add: generate_entries_def get_request_fields)
  have u: "generate rt (rq\<lparr>completion := Inr None\<rparr>) = normalize rt []"
    "generate rt (rq\<lparr>completion := Inr (Some [])\<rparr>) = normalize rt []"
    by (simp_all add: generate_def)
  show ?thesis
    using g e u
    by (simp add: handler_def handler_part_000_def handler_blob_def Let_def regenerate_def
        internal_error_def blob_internal_error_def message_or_error_def message_or_string_def
        get_request_fields fresh_entry_initial sample_paths blob_request_fields)
qed

section \<open>The record builders\<close>




text \<open>
  C2, as amended: for a parsed value with a words list and a clues object that
  normalisation accepts, the returned words are the upper-cased input words, in order and
  one for one (a word listed twice is returned twice), and the returned clue keys are the
  upper-cased input keys.  For a parsed list of \<^verbatim>\<open>{word, clue}\<close> entries that it
  accepts, the returned words are, up to letter case, the words of the entries, in order
  and one for one, and the returned clue keys are the upper-cased words of the entries.
\<close>

theorem words_and_keys_are_uppercased:
  "(formattedResponse rt v = Some p \<longrightarrow>
      (\<exists>ws cl kvs.
         get_prop v ''words'' = Some (JArray (map JString ws)) \<and>
         get_prop v ''clues'' = Some cl \<and> Object_entries cl = Some kvs \<and>
         words p = map (\<lambda>w. JString (toUpperCase rt w)) ws \<and>
         dom (clues p) = toUpperCase rt ` fst ` set kvs)) \<and>
   (entriesResponse rt raw = Some q \<longrightarrow>
      (\<exists>es ws.
         get_prop raw ''words'' = Some (JArray es) \<and>
         map (\<lambda>e. get_prop e ''word'') es = map (\<lambda>w. Some (JString w)) ws \<and>
         map (upper rt) (words q) = map (\<lambda>w. Some (toUpperCase rt w)) ws \<and>
         dom (clues q) = toUpperCase rt ` set ws))"
proof (intro conjI impI)
  assume "formattedResponse rt v = Some p"
  from formattedResponse_Some[OF this] obtain th ws cl kvs where
    h: "get_prop v ''words'' = Some (JArray (map JString ws))"
      "get_prop v ''clues'' = Some cl" "Object_entries cl = Some kvs"
      "p = \<lparr>theme = th, words = map (\<lambda>w. JString (toUpperCase rt w)) ws,
          clues = Object_fromEntries (map (\<lambda>(word, clue). (toUpperCase rt word, clue)) kvs)\<rparr>"
    by blast
  have "fst ` (\<lambda>(word, clue). (toUpperCase rt word, clue)) ` set kvs = toUpperCase rt ` fst ` set kvs"
    by (force simp: image_iff)
  then have "dom (clues p) = toUpperCase rt ` fst ` set kvs"
    using h(4) by (simp add: dom_fromEntries)
  moreover have "words p = map (\<lambda>w. JString (toUpperCase rt w)) ws"
    using h(4) by simp
  ultimately show "\<exists>ws cl kvs.
         get_prop v ''words'' = Some (JArray (map JString ws)) \<and>
         get_prop v ''clues'' = Some cl \<and> Object_entries cl = Some kvs \<and>
         words p = map (\<lambda>w. JString (toUpperCase rt w)) ws \<and>
         dom (clues p) = toUpperCase rt ` fst ` set kvs"
    using h(1-3) by blast
next
  assume "entriesResponse rt raw = Some q"
  from entriesResponse_Some[OF this] obtain es ws where
    h: "get_prop raw ''words'' = Some (JArray es)"
      "map (\<lambda>e. get_prop e ''word'') es = map (\<lambda>w. Some (JString w)) ws"
      "words q = map JString ws" "dom (clues q) = toUpperCase rt ` set ws"
    by blast
  have "map (upper rt) (words q) = map (\<lambda>w. Some (toUpperCase rt w)) ws"
    using h(3) by simp
  then show "\<exists>es ws.
         get_prop raw ''words'' = Some (JArray es) \<and>
         map (\<lambda>e. get_prop e ''word'') es = map (\<lambda>w. Some (JString w)) ws \<and>
         map (upper rt) (words q) = map (\<lambda>w. Some (toUpperCase rt w)) ws \<and>
         dom (clues q) = toUpperCase rt ` set ws"
    using h by blast
qed

theorem words_and_keys_are_uppercased_witness:
  "formattedResponse sample_rt repeated_parsed = Some repeated_puzzle \<and>
   (\<exists>ws cl kvs.
      get_prop repeated_parsed ''words'' = Some (JArray (map JString ws)) \<and>
      get_prop repeated_parsed ''clues'' = Some cl \<and> Object_entries cl = Some kvs \<and>
      words repeated_puzzle = map (\<lambda>w. JString (toUpperCase sample_rt w)) ws \<and>
      dom (clues repeated_puzzle) = toUpperCase sample_rt ` fst ` set kvs) \<and>
   entriesResponse sample_rt entries_parsed = Some entries_puzzle \<and>
   (\<exists>es ws.
      get_prop entries_parsed ''words'' = Some (JArray es) \<and>
      map (\<lambda>e. get_prop e ''word'') es = map (\<lambda>w. Some (JString w)) ws \<and>
      map (upper sample_rt) (words entries_puzzle) = map (\<lambda>w. Some (toUpperCase sample_rt w)) ws \<and>
      dom (clues entries_puzzle) = toUpperCase sample_rt ` set ws)"
proof -
  have a: "formattedResponse sample_rt repeated_parsed = Some repeated_puzzle"
    by (simp add: formattedResponse_def repeated_parsed_def repeated_puzzle_def sample_rt_def
        ascii_upper_def Object_fromEntries_def)
  have b: "entriesResponse sample_rt entries_parsed = Some entries_puzzle"
    by (simp add: entriesResponse_def entries_parsed_def entries_puzzle_def sample_rt_def
        ascii_upper_def)
  note t = words_and_keys_are_uppercased
  show ?thesis
    by (intro conjI)
      (fact a, fact t[THEN conjunct1, THEN mp, OF a], fact b, fact t[THEN conjunct2, THEN mp, OF b])
qed

text \<open>
  C2 as stated fails: a word listed twice (here in two spellings that upper-case alike)
  is returned twice.
\<close>

theorem duplicate_words_kept_counterexample:
  "formattedResponse sample_rt repeated_parsed = Some repeated_puzzle \<and>
   words repeated_puzzle = [JString ''MOON'', JString ''MOON''] \<and>
   words repeated_puzzle \<noteq> remdups (words repeated_puzzle) \<and>
   map_option words (entriesResponse sample_rt entries_parsed) = Some [JString ''orbit'']"
  by (simp add: formattedResponse_def repeated_parsed_def repeated_puzzle_def sample_rt_def
      ascii_upper_def Object_fromEntries_def entriesResponse_def entries_parsed_def)

section \<open>The blob store\<close>

text \<open>
  C3, as amended: on the durable-hit path (the listing of the day's directory holds the
  day's puzzle path) the blob handler makes no generation call and no write, one listing
  and one fetch of the stored record, and answers 200 with the fetched value when the
  fetch succeeds.  It keeps no memory tier.
\<close>

theorem stored_puzzle_is_fetched:
  assumes "req_method rq \<noteq> ''OPTIONS''"
    and "list_blobs rq (puzzleDir rt (now rq)) = Inr blobs"
    and "find (\<lambda>b. pathname b = puzzlePath rt (now rq)) blobs = Some b"
  shows "calls (handler_blob rt rq) = [BlobList (puzzleDir rt (now rq)), BlobFetch (url b)] \<and>
     (\<forall>d. fetch_url rq (url b) = Inr \<lparr>ok = True, json = Inr d\<rparr> \<longrightarrow>
        reply (handler_blob rt rq) = \<lparr>status = 200, body = ValueJson d\<rparr>)"
  using assms by (auto simp: handler_blob_def Let_def split: sum.splits)

theorem stored_puzzle_is_fetched_witness:
  "handler_blob sample_rt (blob_request [stored_blob] (Inl (Error ''not called''))) =
     \<lparr>reply = \<lparr>status = 200, body = ValueJson sample_parsed\<rparr>,
      calls = [BlobList ''puzzle/2024-12-17/'', BlobFetch (url stored_blob)]\<rparr>"
proof -
  let ?rq = "blob_request [stored_blob] (Inl (Error ''not called''))"
  have d: "puzzleDir sample_rt (now ?rq) = ''puzzle/2024-12-17/''"
    and p: "puzzlePath sample_rt (now ?rq) = ''puzzle/2024-12-17/puzzle.json''"
    by (simp_all add: puzzleDir_def puzzlePath_def today_def sample_rt_def)
  have "req_method ?rq \<noteq> ''OPTIONS''" by (simp add: blob_request_def)
  moreover have "list_blobs ?rq (puzzleDir sample_rt (now ?rq)) = Inr [stored_blob]"
    by (simp add: blob_request_def)
  moreover have "find (\<lambda>b. pathname b = puzzlePath sample_rt (now ?rq)) [stored_blob] = Some stored_blob"
    unfolding p by (simp add: stored_blob_def)
  ultimately have "calls (handler_blob sample_rt ?rq) =
        [BlobList (puzzleDir sample_rt (now ?rq)), BlobFetch (url stored_blob)] \<and>
     (\<forall>d. fetch_url ?rq (url stored_blob) = Inr \<lparr>ok = True, json = Inr d\<rparr> \<longrightarrow>
        reply (handler_blob sample_rt ?rq) = \<lparr>status = 200, body = ValueJson d\<rparr>)"
    by (rule stored_puzzle_is_fetched)
  moreover have "fetch_url ?rq (url stored_blob) = Inr \<lparr>ok = True, json = Inr sample_parsed\<rparr>"
    by (simp add: blob_request_def)
  ultimately show ?thesis unfolding d by (simp add: result.equality)
qed

text \<open>
  C3 as stated fails: the request that follows a durable hit is no memory hit, it lists
  and fetches again.
\<close>

theorem second_request_fetches_again_counterexample:
  "map (\<lambda>rq. calls (handler_blob sample_rt rq))
     [blob_request [stored_blob] (Inl (Error ''not called'')),
      blob_request [stored_blob] (Inl (Error ''not called''))] =
   [[BlobList ''puzzle/2024-12-17/'', BlobFetch (url stored_blob)],
    [BlobList ''puzzle/2024-12-17/'', BlobFetch (url stored_blob)]]"
  by (simp add: handler_blob_def blob_request_def stored_blob_def puzzleDir_def puzzlePath_def
      today_def sample_rt_def)

text \<open>
  C4, as amended: if generation and normalisation succeed but the write to the blob store
  fails, the handler answers 500 with the message of the write's error as
  \<^verbatim>\<open>details\<close>, after the
  listing, the generation call and the attempted write; the puzzle is not returned.
\<close>

theorem failed_write_answers_500:
  assumes "req_method rq \<noteq> ''OPTIONS''"
    and "list_blobs rq (puzzleDir rt (now rq)) = Inr blobs"
    and "find (\<lambda>b. pathname b = puzzlePath rt (now rq)) blobs = None"
    and "generate rt rq = Inr p"
    and "put_blob rq (puzzlePath rt (now rq)) p = Inl e"
  shows "handler_blob rt rq =
     \<lparr>reply = \<lparr>status = 500,
        body = ErrorJson ''Internal Server Error'' (Some (message_or_string e))\<rparr>,
      calls = [BlobList (puzzleDir rt (now rq)), ChatCreate, BlobPut (puzzlePath rt (now rq)) p]\<rparr>"
  using assms by (simp add: handler_blob_def Let_def blob_internal_error_def)

theorem failed_write_answers_500_witness:
  "handler_blob sample_rt (blob_request [] (Inl (Error ''store unavailable''))) =
     \<lparr>reply = \<lparr>status = 500,
        body = ErrorJson ''Internal Server Error'' (Some (Text ''store unavailable''))\<rparr>,
      calls = [BlobList ''puzzle/2024-12-17/'', ChatCreate,
        BlobPut ''puzzle/2024-12-17/puzzle.json'' sample_puzzle]\<rparr>"
proof -
  let ?rq = "blob_request [] (Inl (Error ''store unavailable''))"
  have "req_method ?rq \<noteq> ''OPTIONS''"
    and "list_blobs ?rq (puzzleDir sample_rt (now ?rq)) = Inr []"
    and "find (\<lambda>b. pathname b = puzzlePath sample_rt (now ?rq)) [] = None"
    and "put_blob ?rq (puzzlePath sample_rt (now ?rq)) sample_puzzle = Inl (Error ''store unavailable'')"
    by (simp_all add: blob_request_def)
  from failed_write_answers_500[OF this(1-3) sample_generated this(4)]
  show ?thesis by (simp add: sample_paths message_or_string_def)
qed

text \<open>
  C4 as stated fails: the generated puzzle is lost to the caller when the write fails.
\<close>

theorem failed_write_counterexample:
  "generate sample_rt (blob_request [] (Inl (Error ''store unavailable''))) = Inr sample_puzzle \<and>
   status (reply (handler_blob sample_rt (blob_request [] (Inl (Error ''store unavailable''))))) = 500 \<and>
   body (reply (handler_blob sample_rt (blob_request [] (Inl (Error ''store unavailable''))))) =
     ErrorJson ''Internal Server Error'' (Some (Text ''store unavailable''))"
proof -
  have "handler_blob sample_rt (blob_request [] (Inl (Error ''store unavailable''))) =
     \<lparr>reply = blob_internal_error (Error ''store unavailable''),
      calls = [BlobList ''puzzle/2024-12-17/'', ChatCreate,
        BlobPut ''puzzle/2024-12-17/puzzle.json'' sample_puzzle]\<rparr>"
    by (simp add: handler_blob_def Let_def sample_generated sample_paths blob_request_fields)
  then show ?thesis
    by (simp add: sample_generated blob_internal_error_def message_or_string_def)
qed

end
